theory Spec2Isabelle
  imports Main "HOL-Library.AList"
begin

section \<open>JavaScript values and the object store\<close>

text \<open>
  The class \<open>User\<close> works on dynamically typed values and on shared mutable arrays and
  objects. Values are a datatype; arrays and plain objects live in a store and values
  refer to them by address, so that two references to one array are the same value and
  a write through one is seen through the other.

  Numbers are kept abstract (an integer or NaN): the class only takes their
  \<open>typeof\<close>, their truthiness and their strict equality. Functions are opaque
  identities. Objects are plain data objects, as \<open>JSON.parse\<close> and object literals make
  them: the list of their own enumerable data properties in the order \<open>for ... in\<close>
  visits them (no result below depends on that order), with \<open>Object.prototype\<close> as their
  prototype. An own data property may have any name, \<open>__proto__\<close> included (\<open>JSON.parse\<close>
  creates it as an ordinary property). Accessors, proxies and caller objects with
  another prototype are not modelled. Arrays are dense.

  A function that allocates returns the store it leaves; new cells are appended, so the
  cells of the store a function was called in, which are all the cells its caller can
  hold a reference to, keep their addresses.
\<close>

type_synonym addr = nat

datatype jsval =
    JUndefined
  | JNull
  | JBool bool
  | JNum int
  | JNaN
  | JStr string
  | JFun nat
  | JRef addr

type_synonym jsobject = "(string \<times> jsval) list"

datatype cell = HArr "jsval list" | HObj jsobject

type_synonym heap = "cell list"

datatype js_error = Error string | TypeError | CloneFuelExhausted

definition deref :: "heap \<Rightarrow> addr \<Rightarrow> cell option" where
  "deref h a = (if a < length h then Some (h ! a) else None)"

fun typeof :: "jsval \<Rightarrow> string" where
  "typeof JUndefined = ''undefined''"
| "typeof JNull = ''object''"
| "typeof (JBool b) = ''boolean''"
| "typeof (JNum n) = ''number''"
| "typeof JNaN = ''number''"
| "typeof (JStr s) = ''string''"
| "typeof (JFun f) = ''function''"
| "typeof (JRef a) = ''object''"

text \<open>\<open>!v\<close> is \<open>\<not> truthy v\<close>.\<close>

fun truthy :: "jsval \<Rightarrow> bool" where
  "truthy JUndefined = False"
| "truthy JNull = False"
| "truthy (JBool b) = b"
| "truthy (JNum n) = (n \<noteq> 0)"
| "truthy JNaN = False"
| "truthy (JStr s) = (s \<noteq> [])"
| "truthy (JFun f) = True"
| "truthy (JRef a) = True"

text \<open>\<open>v instanceof Array\<close>.\<close>

fun instanceof_Array :: "heap \<Rightarrow> jsval \<Rightarrow> bool" where
  "instanceof_Array h (JRef a) = (case deref h a of Some (HArr xs) \<Rightarrow> True | _ \<Rightarrow> False)"
| "instanceof_Array h v = False"


text \<open>\<open>v[k]\<close> for a property name \<open>k\<close>; a missing property reads as \<open>undefined\<close>.\<close>

definition own_prop :: "jsobject \<Rightarrow> string \<Rightarrow> jsval" where
  "own_prop ps k = (case map_of ps k of Some v \<Rightarrow> v | None \<Rightarrow> JUndefined)"

fun get_prop :: "heap \<Rightarrow> jsval \<Rightarrow> string \<Rightarrow> jsval" where
  "get_prop h (JRef a) k = (case deref h a of Some (HObj ps) \<Rightarrow> own_prop ps k | _ \<Rightarrow> JUndefined)"
| "get_prop h v k = JUndefined"

text \<open>\<open>v[k] = x\<close> on a plain object.\<close>

fun set_prop :: "heap \<Rightarrow> jsval \<Rightarrow> string \<Rightarrow> jsval \<Rightarrow> heap" where
  "set_prop h (JRef a) k x =
     (case deref h a of Some (HObj ps) \<Rightarrow> h[a := HObj (AList.update k x ps)] | _ \<Rightarrow> h)"
| "set_prop h v k x = h"

text \<open>The names \<open>for (let prop in v)\<close> visits.\<close>

fun keys_of :: "heap \<Rightarrow> jsval \<Rightarrow> string list" where
  "keys_of h (JRef a) = (case deref h a of Some (HObj ps) \<Rightarrow> map fst ps | _ \<Rightarrow> [])"
| "keys_of h v = []"

text \<open>The object literal \<open>{}\<close>.\<close>

definition new_object :: "heap \<Rightarrow> heap \<times> jsval" where
  "new_object h = (h @ [HObj []], JRef (length h))"

section \<open>The deep copy of the \<open>clone\<close> package\<close>

text \<open>
  \<open>_clone\<close> is the npm package \<open>clone\<close> with its defaults: a depth-first deep copy that
  returns \<open>null\<close> and every value that is not an object as it is, creates the child
  (\<open>[]\<close> for an array, a new object otherwise), looks the parent up in its
  \<open>allParents\<close>/\<open>allChildren\<close> lists (here \<open>memo\<close>) and returns the recorded child when
  the parent was met before, and otherwise records the pair and fills the child with
  the copies of the parent's elements in order (\<open>cell_values\<close> are the elements it
  copies, \<open>cell_rebuild\<close> is the child filled with the copies).

  The parents are read from the store \<open>h0\<close> the copy started in; the copy writes new
  cells only. The recursion depth is bounded by a fuel argument; \<open>clone\<close> starts it
  with one unit for each cell of the store, and \<open>clone_total\<close> below shows that this is
  always enough.
\<close>

type_synonym memo = "(addr \<times> addr) list"

text \<open>
  For an object the package takes the prototype \<open>proto\<close> of the parent, here
  \<open>Object.prototype\<close>, and in its loop \<open>for (var i in parent)\<close> skips every name \<open>i\<close> that
  \<open>proto\<close> defines without a setter: the methods of \<open>Object.prototype\<close>. For the other
  names it runs \<open>child[i] = _clone(parent[i])\<close>. The name \<open>__proto__\<close> is an accessor with a
  setter on \<open>Object.prototype\<close>: the value is copied, but the assignment goes to the
  setter and the child gets no own property of that name. The store does not record
  the prototype the setter gives the child (cells are plain objects): what a copy
  inherits from it, and the error of the setter when the chain would become cyclic,
  are not modelled. For an array the package has no \<open>proto\<close> and copies every element.
\<close>

definition Object_prototype_methods :: "string list" where
  "Object_prototype_methods =
     [''constructor'', ''__defineGetter__'', ''__defineSetter__'', ''hasOwnProperty'',
      ''__lookupGetter__'', ''__lookupSetter__'', ''isPrototypeOf'', ''propertyIsEnumerable'',
      ''toString'', ''valueOf'', ''toLocaleString'']"

definition visited_fields :: "jsobject \<Rightarrow> jsobject" where
  "visited_fields ps = filter (\<lambda>(k, v). k \<notin> set Object_prototype_methods) ps"

definition own_fields :: "jsobject \<Rightarrow> jsobject" where
  "own_fields ps = filter (\<lambda>(k, v). k \<noteq> ''__proto__'') ps"

fun cell_values :: "cell \<Rightarrow> jsval list" where
  "cell_values (HArr xs) = xs"
| "cell_values (HObj ps) = map snd (visited_fields ps)"

fun cell_rebuild :: "cell \<Rightarrow> jsval list \<Rightarrow> cell" where
  "cell_rebuild (HArr xs) vs = HArr vs"
| "cell_rebuild (HObj ps) vs = HObj (own_fields (zip (map fst (visited_fields ps)) vs))"

fun cell_empty :: "cell \<Rightarrow> cell" where
  "cell_empty (HArr xs) = HArr []"
| "cell_empty (HObj ps) = HObj []"

fun clone_val :: "heap \<Rightarrow> nat \<Rightarrow> memo \<times> heap \<Rightarrow> jsval \<Rightarrow> ((memo \<times> heap) \<times> jsval) option"
  and clone_vals :: "heap \<Rightarrow> nat \<Rightarrow> memo \<times> heap \<Rightarrow> jsval list \<Rightarrow> ((memo \<times> heap) \<times> jsval list) option"
where
  "clone_val h0 n (m, h) (JRef a) =
     (case deref h0 a of
        None \<Rightarrow> Some ((m, h), JRef a)
      | Some parent \<Rightarrow>
          (case map_of m a of
             Some child \<Rightarrow> Some ((m, h), JRef child)
           | None \<Rightarrow>
               (case n of
                  0 \<Rightarrow> None
                | Suc k \<Rightarrow>
                    (case clone_vals h0 k ((a, length h) # m, h @ [cell_empty parent])
                            (cell_values parent) of
                       None \<Rightarrow> None
                     | Some ((m', h'), vs) \<Rightarrow>
                         Some ((m', h'[length h := cell_rebuild parent vs]),
                               JRef (length h))))))"
| "clone_val h0 n st v = Some (st, v)"
| "clone_vals h0 n st [] = Some (st, [])"
| "clone_vals h0 n st (v # vs) =
     (case clone_val h0 n st v of
        None \<Rightarrow> None
      | Some (st', v') \<Rightarrow>
          (case clone_vals h0 n st' vs of
             None \<Rightarrow> None
           | Some (st'', vs') \<Rightarrow> Some (st'', v' # vs')))"

definition clone :: "heap \<Rightarrow> jsval \<Rightarrow> (heap \<times> jsval) option" where
  "clone h v =
     (case clone_val h (length h) ([], h) v of
        None \<Rightarrow> None
      | Some ((m, h'), v') \<Rightarrow> Some (h', v'))"

section \<open>The class \<open>User\<close>\<close>

definition RESERVED_KEYWORDS :: "string list" where
  "RESERVED_KEYWORDS = [''_username'', ''username'', ''roles'', ''_roles'', ''hasRole'']"

definition InvalidRoles :: js_error where
  "InvalidRoles = Error ''Invalid roles specified (arg #2)''"

definition InvalidUserData :: js_error where
  "InvalidUserData = Error ''Invalid user data specified (arg #1). Must be a string or object.''"

definition InvalidUsername :: js_error where
  "InvalidUsername = Error ''User data does not define a valid username (user.username)''"

definition InvalidRolesField :: js_error where
  "InvalidRolesField = Error ''User data does not define valid roles (user.roles)''"

text \<open>
  Lines 21 to 36 of the constructor: the positional form builds the working record as
  a copy of \<open>props\<close> with \<open>username\<close> and \<open>roles\<close> set; any other first argument must be a
  non-array object and is used as it is.
\<close>

definition working_record :: "heap \<Rightarrow> jsval \<Rightarrow> jsval \<Rightarrow> jsval \<Rightarrow> js_error + heap \<times> jsval" where
  "working_record h user roles props =
     (if typeof user = ''string'' then
        (if \<not> instanceof_Array h roles then Inl InvalidRoles
         else
           (let (h1, props1) =
                  (if \<not> truthy props \<or> instanceof_Array h props \<or> typeof props \<noteq> ''object''
                   then new_object h else (h, props))
            in case clone h1 props1 of
                 None \<Rightarrow> Inl CloneFuelExhausted
               | Some (h2, user') \<Rightarrow>
                   Inr (set_prop (set_prop h2 user' ''username'' user) user' ''roles'' roles,
                        user')))
      else if \<not> truthy user \<or> instanceof_Array h user \<or> typeof user \<noteq> ''object'' then
        Inl InvalidUserData
      else Inr (h, user))"

text \<open>
  The object under construction is its prototype and its own properties. It starts
  with the prototype of the class, \<open>User.prototype\<close>, and no own property.
\<close>

datatype prototype = User_prototype | Replaced jsval

text \<open>
  \<open>this[prop] = v\<close>. The assignment looks \<open>prop\<close> up along the prototype chain. For the
  name \<open>__proto__\<close> it finds the accessor of \<open>Object.prototype\<close>, unless the object has an
  own property of that name, or its prototype is \<open>null\<close>, or its prototype is an object
  with an own data property of that name. The setter of the accessor creates no own
  property: it makes \<open>v\<close> the prototype of the object when \<open>v\<close> is an object, a function
  or \<open>null\<close>, and does nothing otherwise. Every other name that is assigned here meets
  no setter and becomes an own property (the accessors \<open>username\<close> and \<open>roles\<close> of the
  class have none, and those names are never assigned).
\<close>

fun is_object_or_null :: "jsval \<Rightarrow> bool" where
  "is_object_or_null JNull = True"
| "is_object_or_null (JRef a) = True"
| "is_object_or_null (JFun f) = True"
| "is_object_or_null v = False"

fun inherits_proto_setter :: "heap \<Rightarrow> prototype \<Rightarrow> bool" where
  "inherits_proto_setter h User_prototype = True"
| "inherits_proto_setter h (Replaced JNull) = False"
| "inherits_proto_setter h (Replaced (JRef a)) =
     (case deref h a of Some (HObj ps) \<Rightarrow> map_of ps ''__proto__'' = None | _ \<Rightarrow> True)"
| "inherits_proto_setter h (Replaced v) = True"

fun assign :: "heap \<Rightarrow> prototype \<times> jsobject \<Rightarrow> string \<Rightarrow> jsval \<Rightarrow> prototype \<times> jsobject" where
  "assign h (p, own) prop v =
     (if prop = ''__proto__'' \<and> map_of own prop = None \<and> inherits_proto_setter h p
      then (if is_object_or_null v then (Replaced v, own) else (p, own))
      else (p, AList.update prop v own))"

text \<open>Lines 44 to 48: the loop that assigns the fields that are not reserved to \<open>this\<close>.\<close>

fun adopt :: "heap \<Rightarrow> jsval \<Rightarrow> string list \<Rightarrow> prototype \<times> jsobject \<Rightarrow> prototype \<times> jsobject" where
  "adopt h user [] this = this"
| "adopt h user (prop # rest) this =
     (if prop \<notin> set RESERVED_KEYWORDS
      then adopt h user rest (assign h this prop (get_prop h user prop))
      else adopt h user rest this)"

fun str_length :: "jsval \<Rightarrow> nat" where
  "str_length (JStr s) = length s"
| "str_length v = 0"

text \<open>
  \<open>new User(user, roles, props)\<close>: the constructor run on a new object. The result is
  the store after the call, and the prototype and the own properties of the object.
\<close>

definition User_new ::
  "heap \<Rightarrow> jsval \<Rightarrow> jsval \<Rightarrow> jsval \<Rightarrow> js_error + heap \<times> prototype \<times> jsobject" where
  "User_new h user roles props =
     (case working_record h user roles props of
        Inl e \<Rightarrow> Inl e
      | Inr (h', user') \<Rightarrow>
          (if typeof (get_prop h' user' ''username'') \<noteq> ''string''
               \<or> str_length (get_prop h' user' ''username'') \<le> 0
           then Inl InvalidUsername
           else if \<not> instanceof_Array h' (get_prop h' user' ''roles'')
           then Inl InvalidRolesField
           else
             (let this = adopt h' user' (keys_of h' user') (User_prototype, []);
                  this = assign h' this ''_username'' (get_prop h' user' ''username'')
              in case clone h' (get_prop h' user' ''roles'') of
                   None \<Rightarrow> Inl CloneFuelExhausted
                 | Some (h'', r) \<Rightarrow> Inr (h'', assign h'' this ''_roles'' r))))"

text \<open>
  The constructor as the methods of the class see its result: the store after the
  call and the own properties of the new object, where \<open>_username\<close> and \<open>_roles\<close> are.
\<close>

definition User_constructor ::
  "heap \<Rightarrow> jsval \<Rightarrow> jsval \<Rightarrow> jsval \<Rightarrow> js_error + heap \<times> jsobject" where
  "User_constructor h user roles props =
     (case User_new h user roles props of
        Inl e \<Rightarrow> Inl e
      | Inr (h', p, own) \<Rightarrow> Inr (h', own))"

text \<open>The accessors \<open>get username()\<close> and \<open>get roles()\<close>.\<close>

definition get_username :: "jsobject \<Rightarrow> jsval" where
  "get_username this = own_prop this ''_username''"

definition get_roles :: "jsobject \<Rightarrow> jsval" where
  "get_roles this = own_prop this ''_roles''"




definition array_elems :: "heap \<Rightarrow> jsval \<Rightarrow> jsval list" where
  "array_elems h v =
     (case v of JRef a \<Rightarrow> (case deref h a of Some (HArr xs) \<Rightarrow> xs | _ \<Rightarrow> []) | _ \<Rightarrow> [])"


text \<open>
  Reading the member \<open>k\<close> of a \<open>User\<close>: an own property first, then the prototype chain.
  With the prototype of the class these are the accessors \<open>username\<close> and \<open>roles\<close> and
  the method \<open>hasRole\<close>, a function of its own identity. With a prototype that line 46
  has put in its place they are the own properties of that object, and nothing when
  it is \<open>null\<close>. At the end of either chain \<open>Object.prototype\<close> gives its methods, which are
  built-in functions that are no values of this model (the result is \<open>None\<close> then, as for
  the members an array or a function used as prototype provides), and the accessor
  \<open>__proto__\<close>, which reads the prototype of the object.
\<close>

definition hasRole_method :: jsval where
  "hasRole_method = JFun 0"

definition Object_prototype_member :: "prototype \<Rightarrow> string \<Rightarrow> jsval option" where
  "Object_prototype_member p k =
     (if k \<in> set Object_prototype_methods then None
      else if k = ''__proto__'' then (case p of User_prototype \<Rightarrow> None | Replaced v \<Rightarrow> Some v)
      else Some JUndefined)"

definition User_member :: "heap \<Rightarrow> prototype \<times> jsobject \<Rightarrow> string \<Rightarrow> jsval option" where
  "User_member h this k =
     (case this of (p, own) \<Rightarrow>
        (case map_of own k of
           Some v \<Rightarrow> Some v
         | None \<Rightarrow>
             (case p of
                User_prototype \<Rightarrow>
                  (if k = ''username'' then Some (get_username own)
                   else if k = ''roles'' then Some (get_roles own)
                   else if k = ''hasRole'' then Some hasRole_method
                   else Object_prototype_member p k)
              | Replaced JNull \<Rightarrow> Some JUndefined
              | Replaced (JRef a) \<Rightarrow>
                  (case deref h a of
                     Some (HObj ps) \<Rightarrow>
                       (case map_of ps k of
                          Some v \<Rightarrow> Some v
                        | None \<Rightarrow> Object_prototype_member p k)
                   | _ \<Rightarrow> None)
              | Replaced v \<Rightarrow> None)))"


section \<open>Auxiliary notions for the proofs\<close>

text \<open>A value that refers to a cell of the store.\<close>

fun is_ref :: "jsval \<Rightarrow> bool" where
  "is_ref (JRef a) = True"
| "is_ref v = False"

text \<open>A value of the store \<open>h\<close>: a reference points to one of its cells.\<close>

fun valid_val :: "heap \<Rightarrow> jsval \<Rightarrow> bool" where
  "valid_val h (JRef a) = (a < length h)"
| "valid_val h v = True"

text \<open>The cells of the store the copy started in that it has not met yet.\<close>

definition unvisited :: "heap \<Rightarrow> memo \<Rightarrow> nat" where
  "unvisited h0 m = card ({..<length h0} - fst ` set m)"


text \<open>The two kinds of first argument the constructor accepts.\<close>

fun is_string :: "jsval \<Rightarrow> bool" where
  "is_string (JStr s) = True"
| "is_string v = False"

fun is_object :: "heap \<Rightarrow> jsval \<Rightarrow> bool" where
  "is_object h (JRef a) = (case deref h a of Some (HObj ps) \<Rightarrow> True | _ \<Rightarrow> False)"
| "is_object h v = False"


section \<open>Properties of the deep copy\<close>

lemma clone_val_nonref: "\<not> is_ref v \<Longrightarrow> clone_val h0 n st v = Some (st, v)"
  by (cases v; cases st; simp)

lemma clone_vals_nonref: "\<forall>v \<in> set vs. \<not> is_ref v \<Longrightarrow> clone_vals h0 n st vs = Some (st, vs)"
  by (induction vs) (simp_all add: clone_val_nonref)

lemma clone_ext:
  shows "clone_val h0 n st v = Some (st', v') \<Longrightarrow>
           length (snd st) \<le> length (snd st') \<and> take (length (snd st)) (snd st') = snd st
           \<and> fst ` set (fst st) \<subseteq> fst ` set (fst st')"
    and "clone_vals h0 n st vs = Some (st', vs') \<Longrightarrow>
           length (snd st) \<le> length (snd st') \<and> take (length (snd st)) (snd st') = snd st
           \<and> fst ` set (fst st) \<subseteq> fst ` set (fst st') \<and> length vs' = length vs"
proof (induction h0 n st v and h0 n st vs arbitrary: st' v' and st' vs' rule: clone_val_clone_vals.induct)
  case (1 h0 n m h a)
  show ?case
  proof (cases "deref h0 a")
    case None
    with "1.prems" show ?thesis by simp
  next
    case (Some parent)
    show ?thesis
    proof (cases "map_of m a")
      case (Some child)
      with \<open>deref h0 a = Some parent\<close> "1.prems" show ?thesis by simp
    next
      case None
      show ?thesis
      proof (cases n)
        case 0
        with None \<open>deref h0 a = Some parent\<close> "1.prems" show ?thesis by simp
      next
        case (Suc k)
        from "1.prems" None \<open>deref h0 a = Some parent\<close> Suc
        obtain m' h' vs where
          sub: "clone_vals h0 k ((a, length h) # m, h @ [cell_empty parent]) (cell_values parent) = Some ((m', h'), vs)"
          and res: "st' = (m', h'[length h := cell_rebuild parent vs])" "v' = JRef (length h)"
          by (auto split: option.splits)
        from "1.IH"[OF \<open>deref h0 a = Some parent\<close> None Suc sub]
        have a: "length (h @ [cell_empty parent]) \<le> length h'"
          and b: "take (length (h @ [cell_empty parent])) h' = h @ [cell_empty parent]"
          and c: "fst ` set ((a, length h) # m) \<subseteq> fst ` set m'"
          by simp_all
        have "take (length h) h' = take (length h) (take (length (h @ [cell_empty parent])) h')"
          by (simp add: min_def)
        also have "\<dots> = h" by (simp only: b) simp
        finally have d: "take (length h) h' = h" .
        from a c d res show ?thesis by auto
      qed
    qed
  qed
next
  case (4 h0 n st v vs)
  from "4.prems" obtain st1 v1 st2 vs2 where
    s1: "clone_val h0 n st v = Some (st1, v1)" and
    s2: "clone_vals h0 n st1 vs = Some (st2, vs2)" and
    r: "st' = st2" "vs' = v1 # vs2"
    by (auto split: option.splits)
  from "4.IH"(1)[OF s1] "4.IH"(2)[OF s1 refl s2]
  have i1: "length (snd st) \<le> length (snd st1)" "take (length (snd st)) (snd st1) = snd st"
       "fst ` set (fst st) \<subseteq> fst ` set (fst st1)"
   and i2: "length (snd st1) \<le> length (snd st2)" "take (length (snd st1)) (snd st2) = snd st1"
       "fst ` set (fst st1) \<subseteq> fst ` set (fst st2)" "length vs2 = length vs"
    by simp_all
  have "take (length (snd st)) (snd st2) = take (length (snd st)) (take (length (snd st1)) (snd st2))"
    using i1(1) by (simp add: min_def)
  also have "\<dots> = snd st" by (simp only: i2(2) i1(2))
  finally show ?case using i1 i2 r by auto
qed simp_all

lemma unvisited_mono: "fst ` set m \<subseteq> fst ` set m' \<Longrightarrow> unvisited h0 m' \<le> unvisited h0 m"
  unfolding unvisited_def by (rule card_mono) auto

lemma unvisited_visit:
  assumes "deref h0 a = Some c" "map_of m a = None"
  shows "Suc (unvisited h0 ((a, b) # m)) = unvisited h0 m"
proof -
  from assms(1) have a: "a < length h0" by (simp add: deref_def split: if_splits)
  from assms(2) have b: "a \<notin> fst ` set m" by (simp add: map_of_eq_None_iff)
  have "{..<length h0} - fst ` set ((a, b) # m) = ({..<length h0} - fst ` set m) - {a}"
    by auto
  moreover have "a \<in> {..<length h0} - fst ` set m" using a b by simp
  then have "Suc (card (({..<length h0} - fst ` set m) - {a})) = card ({..<length h0} - fst ` set m)"
    by (intro card_Suc_Diff1) simp_all
  ultimately show ?thesis
    unfolding unvisited_def by (simp only:)
qed

lemma clone_enough_fuel:
  shows "unvisited h0 (fst st) \<le> n \<Longrightarrow> clone_val h0 n st v \<noteq> None"
    and "unvisited h0 (fst st) \<le> n \<Longrightarrow> clone_vals h0 n st vs \<noteq> None"
proof (induction h0 n st v and h0 n st vs rule: clone_val_clone_vals.induct)
  case (1 h0 n m h a)
  show ?case
  proof (cases "deref h0 a")
    case None
    then show ?thesis by simp
  next
    case (Some parent)
    show ?thesis
    proof (cases "map_of m a")
      case (Some child)
      with \<open>deref h0 a = Some parent\<close> show ?thesis by simp
    next
      case None
      from unvisited_visit[OF \<open>deref h0 a = Some parent\<close> None, of "length h"] "1.prems"
      obtain k where k: "n = Suc k" and le: "unvisited h0 ((a, length h) # m) \<le> k"
        by (cases n) auto
      from "1.IH"[OF \<open>deref h0 a = Some parent\<close> None k] le
      have "clone_vals h0 k ((a, length h) # m, h @ [cell_empty parent]) (cell_values parent) \<noteq> None"
        by simp
      with None \<open>deref h0 a = Some parent\<close> k show ?thesis
        by (auto split: option.splits)
    qed
  qed
next
  case (4 h0 n st v vs)
  from "4.IH"(1)[OF "4.prems"] obtain st1 v1 where s1: "clone_val h0 n st v = Some (st1, v1)"
    by (cases "clone_val h0 n st v") auto
  from clone_ext(1)[OF s1] have "fst ` set (fst st) \<subseteq> fst ` set (fst st1)" by simp
  from unvisited_mono[OF this, of h0] "4.prems" have "unvisited h0 (fst st1) \<le> n" by simp
  from "4.IH"(2)[OF s1 refl this] s1 show ?case
    by (auto split: option.splits)
qed simp_all

lemma clone_total: "\<exists>h' v'. clone h v = Some (h', v')"
proof -
  have "unvisited h (fst ([]::memo, h)) \<le> length h"
    unfolding unvisited_def by (simp)
  from clone_enough_fuel(1)[OF this, of v] show ?thesis
    by (auto simp: clone_def split: option.splits)
qed

lemma clone_extends:
  assumes "clone h v = Some (h', v')"
  shows "length h \<le> length h'" and "take (length h) h' = h"
proof -
  from assms obtain m where "clone_val h (length h) ([], h) v = Some ((m, h'), v')"
    by (auto simp: clone_def split: option.splits)
  from clone_ext(1)[OF this] show "length h \<le> length h'" and "take (length h) h' = h"
    by simp_all
qed

lemma clone_cell:
  assumes "deref h r = Some c"
  shows "\<exists>h' vs. clone h (JRef r) = Some (h', JRef (length h))
           \<and> deref h' (length h) = Some (cell_rebuild c vs)
           \<and> length vs = length (cell_values c)
           \<and> ((\<forall>v \<in> set (cell_values c). \<not> is_ref v) \<longrightarrow> vs = cell_values c)
           \<and> length h < length h' \<and> take (length h) h' = h"
proof -
  from assms have r: "r < length h" by (simp add: deref_def split: if_splits)
  then obtain k where k: "length h = Suc k" by (cases "length h") auto
  let ?st = "([(r, length h)], h @ [cell_empty c])"
  have "Suc (unvisited h (fst ?st)) = unvisited h []"
    using unvisited_visit[OF assms, of "[]" "length h"] by simp
  moreover have "unvisited h [] \<le> length h" by (simp add: unvisited_def)
  ultimately have "unvisited h (fst ?st) \<le> k" using k by simp
  from clone_enough_fuel(2)[OF this, of "cell_values c"]
  obtain m' h2 vs where sub: "clone_vals h k ?st (cell_values c) = Some ((m', h2), vs)"
    by (cases "clone_vals h k ?st (cell_values c)") auto
  from clone_ext(2)[OF sub]
  have a: "Suc (length h) \<le> length h2" and b: "take (Suc (length h)) h2 = h @ [cell_empty c]"
    and l: "length vs = length (cell_values c)"
    by simp_all
  have "take (length h) h2 = take (length h) (take (Suc (length h)) h2)"
    by (simp add: min_def)
  also have "\<dots> = h" by (simp only: b) simp
  finally have d: "take (length h) h2 = h" .
  have res: "clone h (JRef r) = Some (h2[length h := cell_rebuild c vs], JRef (length h))"
    using assms k sub unfolding clone_def by simp
  have prim: "(\<forall>v \<in> set (cell_values c). \<not> is_ref v) \<longrightarrow> vs = cell_values c"
  proof
    assume "\<forall>v \<in> set (cell_values c). \<not> is_ref v"
    from clone_vals_nonref[OF this, of h k ?st] sub show "vs = cell_values c" by simp
  qed
  from a have "deref (h2[length h := cell_rebuild c vs]) (length h) = Some (cell_rebuild c vs)"
    by (simp add: deref_def)
  with res l prim a d show ?thesis by auto
qed

section \<open>Properties of the constructor\<close>

lemma assign_map_of:
  "k \<noteq> ''__proto__'' \<Longrightarrow>
     map_of (snd (assign h this prop v)) k = (if k = prop then Some v else map_of (snd this) k)"
  by (cases this) (auto simp: update_conv)

lemma adopt_map_of:
  "k \<noteq> ''__proto__'' \<Longrightarrow>
     map_of (snd (adopt h user ks this)) k =
       (if k \<in> set ks \<and> k \<notin> set RESERVED_KEYWORDS then Some (get_prop h user k)
        else map_of (snd this) k)"
  by (induction ks arbitrary: this) (auto simp: assign_map_of simp del: assign.simps)

lemma reserved_not_proto: "k \<in> set RESERVED_KEYWORDS \<Longrightarrow> k \<noteq> ''__proto__''"
  by (auto simp: RESERVED_KEYWORDS_def)

lemma adopt_reserved_None:
  "\<forall>k \<in> set RESERVED_KEYWORDS. map_of (snd (adopt h user ks (p, []))) k = None"
  by (simp add: adopt_map_of reserved_not_proto)

lemma User_constructor_unfold:
  "User_constructor h user roles props =
     (case working_record h user roles props of
        Inl e \<Rightarrow> Inl e
      | Inr (h', user') \<Rightarrow>
          (if typeof (get_prop h' user' ''username'') \<noteq> ''string''
               \<or> str_length (get_prop h' user' ''username'') \<le> 0
           then Inl InvalidUsername
           else if \<not> instanceof_Array h' (get_prop h' user' ''roles'')
           then Inl InvalidRolesField
           else
             (case clone h' (get_prop h' user' ''roles'') of
                None \<Rightarrow> Inl CloneFuelExhausted
              | Some (h'', r) \<Rightarrow>
                  Inr (h'', AList.update ''_roles'' r
                              (AList.update ''_username'' (get_prop h' user' ''username'')
                                 (snd (adopt h' user' (keys_of h' user') (User_prototype, []))))))))"
proof -
  have a: "snd (assign h2 (assign h1 t ''_username'' x) ''_roles'' y)
             = AList.update ''_roles'' y (AList.update ''_username'' x (snd t))" for h1 h2 t x y
    by (cases t) simp
  show ?thesis
    unfolding User_constructor_def User_new_def
    by (auto simp: Let_def simp del: get_prop.simps keys_of.simps assign.simps
        split: sum.splits option.splits)
       (metis a snd_conv)
qed

lemma own_prop_update: "own_prop (AList.update k v ps) k' = (if k' = k then v else own_prop ps k')"
  by (simp add: own_prop_def update_conv)

lemma take_prefix_length: "take (length h) h' = h \<Longrightarrow> length h \<le> length h'"
proof -
  assume "take (length h) h' = h"
  then have "length (take (length h) h') = length h" by simp
  then show ?thesis by simp
qed

lemma take_prefix_trans:
  assumes "take (length h) h1 = h" "take (length h1) h2 = h1"
  shows "take (length h) h2 = h"
proof -
  from assms(1) have "length h \<le> length h1" by (rule take_prefix_length)
  then have "take (length h) h2 = take (length h) (take (length h1) h2)"
    by (simp add: min_def)
  with assms show ?thesis by simp
qed

lemma deref_prefix:
  assumes "take (length h) h' = h" "a < length h"
  shows "deref h' a = deref h a"
proof -
  from assms(1) have le: "length h \<le> length h'" by (rule take_prefix_length)
  have "h ! a = take (length h) h' ! a" using assms(1) by simp
  also have "\<dots> = h' ! a" using assms(2) by simp
  finally show ?thesis using le assms(2) by (simp add: deref_def)
qed

lemma working_record_object:
  assumes "typeof user \<noteq> ''string''" "truthy user" "\<not> instanceof_Array h user" "typeof user = ''object''"
  shows "working_record h user roles props = Inr (h, user)"
  using assms by (simp add: working_record_def)

lemma clone_props_object:
  assumes "deref h1 p = Some (HObj pps)"
  shows "\<exists>h2 ps0. clone h1 (JRef p) = Some (h2, JRef (length h1))
           \<and> deref h2 (length h1) = Some (HObj ps0) \<and> (pps = [] \<longrightarrow> ps0 = [])
           \<and> length h1 < length h2 \<and> take (length h1) h2 = h1"
proof -
  from clone_cell[OF assms] obtain h2 vs where
    "clone h1 (JRef p) = Some (h2, JRef (length h1))"
    "deref h2 (length h1) = Some (HObj (own_fields (zip (map fst (visited_fields pps)) vs)))"
    "length h1 < length h2" "take (length h1) h2 = h1"
    by auto
  then show ?thesis by (auto simp: visited_fields_def own_fields_def)
qed

lemma working_record_positional:
  assumes "instanceof_Array h roles" "valid_val h props"
  shows "\<exists>h3 c ps. working_record h (JStr u) roles props = Inr (h3, JRef c)
           \<and> deref h3 c = Some (HObj ps)
           \<and> own_prop ps ''username'' = JStr u \<and> own_prop ps ''roles'' = roles
           \<and> length h \<le> c \<and> c < length h3 \<and> take (length h) h3 = h
           \<and> (\<not> truthy props \<or> instanceof_Array h props \<or> typeof props \<noteq> ''object''
                \<longrightarrow> ps = [(''username'', JStr u), (''roles'', roles)])"
proof -
  define bad where "bad = (\<not> truthy props \<or> instanceof_Array h props \<or> typeof props \<noteq> ''object'')"
  define h1 where "h1 = (if bad then h @ [HObj []] else h)"
  define props1 where "props1 = (if bad then JRef (length h) else props)"
  have pre: "take (length h) h1 = h" "length h \<le> length h1" by (simp_all add: h1_def)
  have "\<exists>p pps. props1 = JRef p \<and> deref h1 p = Some (HObj pps) \<and> (bad \<longrightarrow> pps = [])"
  proof (cases bad)
    case True
    then show ?thesis by (simp add: props1_def h1_def deref_def)
  next
    case False
    then obtain p where p: "props = JRef p" unfolding bad_def by (cases props) auto
    with assms(2) have "p < length h" by simp
    with False p show ?thesis unfolding bad_def props1_def h1_def
      by (cases "h ! p") (auto simp: deref_def)
  qed
  then obtain p pps where p: "props1 = JRef p" "deref h1 p = Some (HObj pps)" "bad \<longrightarrow> pps = []"
    by blast
  from clone_props_object[OF p(2)] obtain h2 ps0 where
    c: "clone h1 (JRef p) = Some (h2, JRef (length h1))"
       "deref h2 (length h1) = Some (HObj ps0)" "pps = [] \<longrightarrow> ps0 = []"
       "length h1 < length h2" "take (length h1) h2 = h1"
    by blast
  let ?ps = "AList.update ''roles'' roles (AList.update ''username'' (JStr u) ps0)"
  let ?h3 = "h2[length h1 := HObj ?ps]"
  have "working_record h (JStr u) roles props =
          (case clone h1 props1 of
             None \<Rightarrow> Inl CloneFuelExhausted
           | Some (h2, user') \<Rightarrow>
               Inr (set_prop (set_prop h2 user' ''username'' (JStr u)) user' ''roles'' roles, user'))"
    using assms(1) by (simp add: working_record_def new_object_def h1_def props1_def bad_def)
  also have "\<dots> = Inr (set_prop (set_prop h2 (JRef (length h1)) ''username'' (JStr u))
                          (JRef (length h1)) ''roles'' roles, JRef (length h1))"
    using c(1) p(1) by simp
  also have "set_prop h2 (JRef (length h1)) ''username'' (JStr u)
               = h2[length h1 := HObj (AList.update ''username'' (JStr u) ps0)]"
    using c(2) by simp
  also have "set_prop (h2[length h1 := HObj (AList.update ''username'' (JStr u) ps0)])
               (JRef (length h1)) ''roles'' roles = ?h3"
    using c(4) by (simp add: deref_def)
  finally have wr: "working_record h (JStr u) roles props = Inr (?h3, JRef (length h1))" .
  have d3: "deref ?h3 (length h1) = Some (HObj ?ps)" using c(4) by (simp add: deref_def)
  have "take (length h) ?h3 = take (length h) h2" using pre(2) by simp
  also have "\<dots> = h" by (rule take_prefix_trans[OF pre(1) c(5)])
  finally have t3: "take (length h) ?h3 = h" .
  have e: "bad \<longrightarrow> ?ps = [(''username'', JStr u), (''roles'', roles)]"
    using p(3) c(3) by auto
  from wr d3 t3 pre(2) c(4) e show ?thesis
    unfolding bad_def by (auto simp: own_prop_update)
qed

lemma constructor_tail:
  assumes "working_record h user roles props = Inr (h3, JRef c)"
      and "deref h3 c = Some (HObj ps)"
      and "own_prop ps ''username'' = JStr u" "u \<noteq> []"
      and "own_prop ps ''roles'' = JRef r" "deref h3 r = Some (HArr xs)"
  shows "\<exists>h4 vs. User_constructor h user roles props =
             Inr (h4, AList.update ''_roles'' (JRef (length h3))
                        (AList.update ''_username'' (JStr u) (snd (adopt h3 (JRef c) (map fst ps) (User_prototype, [])))))
           \<and> deref h4 (length h3) = Some (HArr vs) \<and> length vs = length xs
           \<and> ((\<forall>v \<in> set xs. \<not> is_ref v) \<longrightarrow> vs = xs)
           \<and> length h3 < length h4 \<and> take (length h3) h4 = h3"
proof -
  from clone_cell[OF assms(6)] obtain h4 vs where
    c: "clone h3 (JRef r) = Some (h4, JRef (length h3))"
       "deref h4 (length h3) = Some (HArr vs)" "length vs = length xs"
       "(\<forall>v \<in> set xs. \<not> is_ref v) \<longrightarrow> vs = xs"
       "length h3 < length h4" "take (length h3) h4 = h3"
    by auto
  have "User_constructor h user roles props =
          Inr (h4, AList.update ''_roles'' (JRef (length h3))
                     (AList.update ''_username'' (JStr u) (snd (adopt h3 (JRef c) (map fst ps) (User_prototype, [])))))"
    using assms c(1) by (simp add: User_constructor_unfold)
  with c show ?thesis by blast
qed

lemma instanceof_Array_iff:
  "instanceof_Array h v \<longleftrightarrow> (\<exists>a xs. v = JRef a \<and> deref h a = Some (HArr xs))"
  by (cases v) (auto split: option.splits cell.splits)

lemma is_object_iff:
  "is_object h v \<longleftrightarrow> (\<exists>a ps. v = JRef a \<and> deref h a = Some (HObj ps))"
  by (cases v) (auto split: option.splits cell.splits)

lemma not_object_cases:
  assumes "\<not> is_object h v" "valid_val h v"
  shows "\<not> truthy v \<or> instanceof_Array h v \<or> typeof v \<noteq> ''object''"
proof (cases v)
  case (JRef a)
  with assms(2) have "a < length h" by simp
  with assms(1) JRef show ?thesis
    by (cases "h ! a") (simp_all add: deref_def)
qed simp_all

lemma valid_username_iff:
  "(typeof v \<noteq> ''string'' \<or> str_length v \<le> 0) \<longleftrightarrow> \<not> (\<exists>s. v = JStr s \<and> s \<noteq> [])"
  by (cases v) simp_all

lemma username_check_fails:
  assumes "working_record h user roles props = Inr (h3, u3)"
      and "\<not> (\<exists>s. get_prop h3 u3 ''username'' = JStr s \<and> s \<noteq> [])"
  shows "User_constructor h user roles props = Inl InvalidUsername"
proof -
  from assms(2) have "typeof (get_prop h3 u3 ''username'') \<noteq> ''string''
      \<or> str_length (get_prop h3 u3 ''username'') \<le> 0"
    by (simp only: valid_username_iff) simp
  with assms(1) show ?thesis
    unfolding User_constructor_unfold by (auto simp del: get_prop.simps)
qed

lemma adopt_reserved_only:
  "set ks \<subseteq> set RESERVED_KEYWORDS \<Longrightarrow> adopt h user ks this = this"
  by (induction ks arbitrary: this) auto

lemma clone_ref_result:
  assumes "clone h (JRef p) = Some (h2, v')"
  shows "\<exists>c. v' = JRef c \<and> length h \<le> c \<and> take (length h) h2 = h"
proof (cases "deref h p")
  case None
  then have "clone h (JRef p) = Some (h, JRef p)" by (simp add: clone_def)
  moreover from None have "length h \<le> p" by (simp add: deref_def split: if_splits)
  ultimately show ?thesis using assms by simp
next
  case (Some c)
  from clone_cell[OF Some] assms show ?thesis by auto
qed

lemma set_prop_prefix:
  "length h \<le> c \<Longrightarrow> take (length h) (set_prop H (JRef c) k x) = take (length h) H"
  by (simp split: option.splits cell.splits)

lemma working_record_prefix:
  assumes "working_record h user roles props = Inr (h3, u3)"
  shows "take (length h) h3 = h"
proof (cases "typeof user = ''string''")
  case False
  with assms show ?thesis by (simp add: working_record_def split: if_splits)
next
  case True
  define bad where "bad = (\<not> truthy props \<or> instanceof_Array h props \<or> typeof props \<noteq> ''object'')"
  define h1 where "h1 = (if bad then h @ [HObj []] else h)"
  define props1 where "props1 = (if bad then JRef (length h) else props)"
  have pre: "take (length h) h1 = h" by (simp add: h1_def)
  have "\<exists>p. props1 = JRef p"
  proof (cases bad)
    case True
    then show ?thesis by (simp add: props1_def)
  next
    case False
    then show ?thesis unfolding bad_def props1_def by (cases props) auto
  qed
  then obtain p where p: "props1 = JRef p" ..
  from assms True have arr: "instanceof_Array h roles"
    by (simp add: working_record_def split: if_splits)
  have wr: "working_record h user roles props =
          (case clone h1 props1 of
             None \<Rightarrow> Inl CloneFuelExhausted
           | Some (h2, user') \<Rightarrow>
               Inr (set_prop (set_prop h2 user' ''username'' user) user' ''roles'' roles, user'))"
    using arr True by (simp add: working_record_def new_object_def h1_def props1_def bad_def)
  from clone_total[of h1 props1] obtain h2 v' where c: "clone h1 props1 = Some (h2, v')" by blast
  from clone_ref_result[OF c[unfolded p]] obtain c' where
    c': "v' = JRef c'" "length h1 \<le> c'" "take (length h1) h2 = h1"
    by blast
  from pre have "length h \<le> length h1" by (rule take_prefix_length)
  with c'(2) have le: "length h \<le> c'" by simp
  from wr c c'(1) assms
  have "h3 = set_prop (set_prop h2 (JRef c') ''username'' user) (JRef c') ''roles'' roles"
    by simp
  then have "take (length h) h3 = take (length h) h2"
    by (simp only: set_prop_prefix[OF le])
  also have "\<dots> = h" by (rule take_prefix_trans[OF pre c'(3)])
  finally show ?thesis .
qed

lemma constructor_success:
  assumes "User_constructor h user roles props = Inr (h', this)"
  shows "\<exists>u r' A vs. this = AList.update ''_roles'' (JRef r') (AList.update ''_username'' (JStr u) A)
           \<and> u \<noteq> [] \<and> (\<forall>k \<in> set RESERVED_KEYWORDS. map_of A k = None)
           \<and> length h \<le> r' \<and> r' < length h' \<and> deref h' r' = Some (HArr vs)
           \<and> take (length h) h' = h"
proof -
  from assms obtain h3 u3 where wr: "working_record h user roles props = Inr (h3, u3)"
    unfolding User_constructor_unfold by (auto split: sum.splits)
  from assms wr have ok: "\<not> (typeof (get_prop h3 u3 ''username'') \<noteq> ''string''
       \<or> str_length (get_prop h3 u3 ''username'') \<le> 0)"
    and arr: "instanceof_Array h3 (get_prop h3 u3 ''roles'')"
    unfolding User_constructor_unfold by (auto simp del: get_prop.simps split: if_splits)
  from ok obtain u where u: "get_prop h3 u3 ''username'' = JStr u" "u \<noteq> []"
    by (simp only: valid_username_iff) auto
  from arr obtain r xs where r: "get_prop h3 u3 ''roles'' = JRef r" "deref h3 r = Some (HArr xs)"
    by (auto simp: instanceof_Array_iff)
  from clone_cell[OF r(2)] obtain h4 vs where
    c: "clone h3 (JRef r) = Some (h4, JRef (length h3))"
       "deref h4 (length h3) = Some (HArr vs)"
       "length h3 < length h4" "take (length h3) h4 = h3"
    by auto
  let ?A = "snd (adopt h3 u3 (keys_of h3 u3) (User_prototype, []))"
  from assms wr ok arr u r c(1)
  have res: "h' = h4" "this = AList.update ''_roles'' (JRef (length h3))
                        (AList.update ''_username'' (JStr u) ?A)"
    unfolding User_constructor_unfold by (auto simp del: get_prop.simps keys_of.simps)
  have A: "\<forall>k \<in> set RESERVED_KEYWORDS. map_of ?A k = None"
    by (rule adopt_reserved_None)
  from working_record_prefix[OF wr] have p3: "take (length h) h3 = h" .
  then have "length h \<le> length h3" by (rule take_prefix_length)
  moreover have "take (length h) h4 = h" by (rule take_prefix_trans[OF p3 c(4)])
  ultimately show ?thesis using res u(2) A c(2,3) by blast
qed

lemma constructor_object_form:
  assumes "deref h a = Some (HObj ps)"
      and "own_prop ps ''username'' = JStr u" "u \<noteq> []"
      and "own_prop ps ''roles'' = JRef r" "deref h r = Some (HArr xs)"
  shows "\<exists>h' vs. User_constructor h (JRef a) roles props =
             Inr (h', AList.update ''_roles'' (JRef (length h))
                        (AList.update ''_username'' (JStr u) (snd (adopt h (JRef a) (map fst ps) (User_prototype, [])))))
           \<and> deref h' (length h) = Some (HArr vs) \<and> length vs = length xs
           \<and> ((\<forall>v \<in> set xs. \<not> is_ref v) \<longrightarrow> vs = xs)
           \<and> length h < length h' \<and> take (length h) h' = h"
proof -
  have wr: "working_record h (JRef a) roles props = Inr (h, JRef a)"
    using assms(1) by (simp add: working_record_def)
  from constructor_tail[OF wr assms] show ?thesis .
qed

lemma constructor_positional_form:
  assumes "u \<noteq> []" and "deref h r = Some (HArr xs)" and "valid_val h props"
  shows "\<exists>h' r' A vs. User_constructor h (JStr u) (JRef r) props =
             Inr (h', AList.update ''_roles'' (JRef r') (AList.update ''_username'' (JStr u) A))
           \<and> (\<forall>k \<in> set RESERVED_KEYWORDS. map_of A k = None)
           \<and> length h \<le> r' \<and> r' < length h'
           \<and> deref h' r' = Some (HArr vs) \<and> length vs = length xs
           \<and> ((\<forall>v \<in> set xs. \<not> is_ref v) \<longrightarrow> vs = xs)
           \<and> take (length h) h' = h"
proof -
  have arr: "instanceof_Array h (JRef r)" using assms(2) by simp
  from working_record_positional[OF arr assms(3), of u] obtain h3 c ps where
    wr: "working_record h (JStr u) (JRef r) props = Inr (h3, JRef c)"
    and d: "deref h3 c = Some (HObj ps)"
    and un: "own_prop ps ''username'' = JStr u" and ro: "own_prop ps ''roles'' = JRef r"
    and pre: "take (length h) h3 = h"
    by (elim exE conjE)
  from assms(2) have "r < length h" by (simp add: deref_def split: if_splits)
  from deref_prefix[OF pre this] assms(2) have d3: "deref h3 r = Some (HArr xs)" by simp
  let ?A = "snd (adopt h3 (JRef c) (map fst ps) (User_prototype, []))"
  from constructor_tail[OF wr d un assms(1) ro d3] obtain h4 vs where
    res: "User_constructor h (JStr u) (JRef r) props =
             Inr (h4, AList.update ''_roles'' (JRef (length h3))
                        (AList.update ''_username'' (JStr u) ?A))"
    and dv: "deref h4 (length h3) = Some (HArr vs)" "length vs = length xs"
            "(\<forall>v \<in> set xs. \<not> is_ref v) \<longrightarrow> vs = xs"
    and ext: "length h3 < length h4" "take (length h3) h4 = h3"
    by (elim exE conjE)
  have A: "\<forall>k \<in> set RESERVED_KEYWORDS. map_of ?A k = None"
    by (rule adopt_reserved_None)
  from pre have "length h \<le> length h3" by (rule take_prefix_length)
  moreover have "take (length h) h4 = h" by (rule take_prefix_trans[OF pre ext(2)])
  ultimately show ?thesis using res A dv ext(1) by blast
qed

lemma final_this_reads:
  "get_username (AList.update ''_roles'' R (AList.update ''_username'' U A)) = U"
  "get_roles (AList.update ''_roles'' R (AList.update ''_username'' U A)) = R"
  by (simp_all add: get_username_def get_roles_def own_prop_update)

section \<open>Properties of \<open>hasRole\<close>\<close>







lemma deref_update_same: "a < length h \<Longrightarrow> deref (h[a := c]) a = Some c"
  by (simp add: deref_def)


lemma clone_not_None: "clone h v \<noteq> None"
  using clone_total[of h v] by auto

lemma constructor_never_out_of_fuel:
  "User_constructor h user roles props \<noteq> Inl CloneFuelExhausted"
proof -
  have wr: "working_record h user roles props \<noteq> Inl CloneFuelExhausted"
    by (auto simp: working_record_def InvalidRoles_def InvalidUserData_def clone_not_None
        split: option.splits prod.splits)
  show ?thesis
    using wr unfolding User_constructor_unfold
    by (auto simp: Let_def InvalidUsername_def InvalidRolesField_def clone_not_None
        simp del: get_prop.simps keys_of.simps split: sum.splits option.splits)
qed

section \<open>A construction, evaluated\<close>


section \<open>The prototype and the members of the new object\<close>

lemma assign_other:
  "prop \<noteq> ''__proto__'' \<Longrightarrow>
     fst (assign h this prop v) = fst this
     \<and> map_of (snd (assign h this prop v)) ''__proto__'' = map_of (snd this) ''__proto__''"
  by (cases this) (auto simp: update_conv)

lemma adopt_no_proto:
  "''__proto__'' \<notin> set ks \<Longrightarrow>
     fst (adopt h user ks this) = fst this
     \<and> map_of (snd (adopt h user ks this)) ''__proto__'' = map_of (snd this) ''__proto__''"
  by (induction ks arbitrary: this) (auto simp: assign_other simp del: assign.simps)

lemma User_new_Inr:
  assumes "User_new h user roles props = Inr (h', p, this)"
  shows "User_constructor h user roles props = Inr (h', this)"
  using assms by (simp add: User_constructor_def)

lemma User_new_object_form:
  assumes "deref h a = Some (HObj ps)" and "User_new h (JRef a) x y = Inr (h', p, this)"
  shows "p = fst (adopt h (JRef a) (map fst ps) (User_prototype, []))"
    and "\<exists>u r. this = AList.update ''_roles'' (JRef (length h)) (AList.update ''_username'' (JStr u)
                   (snd (adopt h (JRef a) (map fst ps) (User_prototype, []))))
            \<and> own_prop ps ''username'' = JStr u \<and> own_prop ps ''roles'' = JRef r \<and> r < length h"
    and "take (length h) h' = h"
proof -
  have wr: "working_record h (JRef a) x y = Inr (h, JRef a)"
    using assms(1) by (simp add: working_record_def)
  from assms(2) wr have ok: "\<not> (typeof (get_prop h (JRef a) ''username'') \<noteq> ''string''
       \<or> str_length (get_prop h (JRef a) ''username'') \<le> 0)"
    and arr: "instanceof_Array h (get_prop h (JRef a) ''roles'')"
    unfolding User_new_def by (auto simp del: get_prop.simps split: if_splits)
  from ok assms(1) obtain u where u: "own_prop ps ''username'' = JStr u" "u \<noteq> []"
    by (simp only: valid_username_iff) auto
  from arr assms(1) obtain r xs where r: "own_prop ps ''roles'' = JRef r" "deref h r = Some (HArr xs)"
    by (auto simp: instanceof_Array_iff)
  from constructor_object_form[OF assms(1) u r, of x y] User_new_Inr[OF assms(2)]
  have th: "this = AList.update ''_roles'' (JRef (length h)) (AList.update ''_username'' (JStr u)
                   (snd (adopt h (JRef a) (map fst ps) (User_prototype, []))))"
    and pre: "take (length h) h' = h"
    by auto
  from r(2) have rl: "r < length h" by (simp add: deref_def split: if_splits)
  from th u(1) r(1) rl
  show "\<exists>u r. this = AList.update ''_roles'' (JRef (length h)) (AList.update ''_username'' (JStr u)
                   (snd (adopt h (JRef a) (map fst ps) (User_prototype, []))))
            \<and> own_prop ps ''username'' = JStr u \<and> own_prop ps ''roles'' = JRef r \<and> r < length h"
    by blast
  show "take (length h) h' = h" by (rule pre)
  from clone_cell[OF r(2)] obtain h4 where
    c: "clone h (JRef r) = Some (h4, JRef (length h))" by auto
  have f: "fst (assign h2 (assign h1 t ''_username'' v) ''_roles'' w) = fst t" for h1 h2 t v w
    by (simp add: assign_other)
  from assms(2) wr ok arr assms(1) r(1) c
  have "assign h' (assign h (adopt h (JRef a) (map fst ps) (User_prototype, []))
           ''_username'' (own_prop ps ''username'')) ''_roles'' (JRef (length h)) = (p, this)"
    unfolding User_new_def by (auto simp: Let_def simp del: assign.simps)
  then have "p = fst (assign h' (assign h (adopt h (JRef a) (map fst ps) (User_prototype, []))
           ''_username'' (own_prop ps ''username'')) ''_roles'' (JRef (length h)))"
    by simp
  then show "p = fst (adopt h (JRef a) (map fst ps) (User_prototype, []))"
    by (simp only: f)
qed

lemma User_member_own:
  "map_of this k = Some v \<Longrightarrow> User_member h (p, this) k = Some v"
  by (simp add: User_member_def)

text \<open>
  In the object form every field whose name is neither reserved nor \<open>__proto__\<close> is an
  own property of the new object with the value the caller supplied, for a reference
  the same address; no field is invented, no cell of the caller is changed, and of the
  two validated fields only \<open>roles\<close> is replaced by a reference to a new array.
\<close>

lemma fields_by_reference:
  assumes "deref h a = Some (HObj ps)"
      and "User_new h (JRef a) x y = Inr (h', p, this)"
  shows "(\<forall>k v. k \<notin> set RESERVED_KEYWORDS \<and> k \<noteq> ''__proto__'' \<and> map_of ps k = Some v \<longrightarrow>
            map_of this k = Some v \<and> User_member h' (p, this) k = Some v)
       \<and> (\<forall>k. k \<notin> set RESERVED_KEYWORDS \<and> map_of ps k = None \<longrightarrow> map_of this k = None)
       \<and> take (length h) h' = h
       \<and> (\<exists>r r'. own_prop ps ''roles'' = JRef r \<and> get_roles this = JRef r' \<and> r < length h
             \<and> length h \<le> r')
       \<and> get_username this = own_prop ps ''username''
       \<and> (\<forall>k b c. k \<notin> set RESERVED_KEYWORDS \<and> k \<noteq> ''__proto__'' \<and> map_of ps k = Some (JRef b)
               \<and> b < length h \<longrightarrow>
            User_member (h'[b := c]) (p, this) k = Some (JRef b) \<and> deref (h'[b := c]) b = Some c)"
proof -
  let ?A = "snd (adopt h (JRef a) (map fst ps) (User_prototype, []))"
  from User_new_object_form(2,3)[OF assms] obtain u r where
    th: "this = AList.update ''_roles'' (JRef (length h)) (AList.update ''_username'' (JStr u) ?A)"
    and u: "own_prop ps ''username'' = JStr u" and r: "own_prop ps ''roles'' = JRef r" "r < length h"
    and pre: "take (length h) h' = h"
    by blast
  have m: "map_of this k = map_of ?A k" if "k \<notin> set RESERVED_KEYWORDS" for k
    using that unfolding th by (simp add: update_conv RESERVED_KEYWORDS_def)
  have gp: "get_prop h (JRef a) k = own_prop ps k" for k using assms(1) by simp
  have 1: "\<forall>k v. k \<notin> set RESERVED_KEYWORDS \<and> k \<noteq> ''__proto__'' \<and> map_of ps k = Some v \<longrightarrow>
            map_of this k = Some v \<and> User_member h' (p, this) k = Some v"
  proof (intro allI impI, elim conjE)
    fix k v assume k: "k \<notin> set RESERVED_KEYWORDS" "k \<noteq> ''__proto__''" and v: "map_of ps k = Some v"
    from map_of_SomeD[OF v] have "k \<in> set (map fst ps)" by force
    with k v have "map_of this k = Some v"
      by (simp add: m adopt_map_of gp own_prop_def del: get_prop.simps)
    then show "map_of this k = Some v \<and> User_member h' (p, this) k = Some v"
      by (simp add: User_member_own)
  qed
  have 2: "\<forall>k. k \<notin> set RESERVED_KEYWORDS \<and> map_of ps k = None \<longrightarrow> map_of this k = None"
  proof (intro allI impI, elim conjE)
    fix k assume k: "k \<notin> set RESERVED_KEYWORDS" and v: "map_of ps k = None"
    from v have n: "k \<notin> set (map fst ps)" by (simp add: map_of_eq_None_iff)
    show "map_of this k = None"
    proof (cases "k = ''__proto__''")
      case True
      with n adopt_no_proto[of "map fst ps" h "JRef a" "(User_prototype, [])"]
      have "map_of ?A k = None" by simp
      with k show ?thesis by (simp add: m)
    next
      case False
      with k n show ?thesis by (simp add: m adopt_map_of)
    qed
  qed
  have 3: "\<forall>k b c. k \<notin> set RESERVED_KEYWORDS \<and> k \<noteq> ''__proto__'' \<and> map_of ps k = Some (JRef b)
               \<and> b < length h \<longrightarrow>
            User_member (h'[b := c]) (p, this) k = Some (JRef b) \<and> deref (h'[b := c]) b = Some c"
  proof (intro allI impI, elim conjE)
    fix k b c
    assume k: "k \<notin> set RESERVED_KEYWORDS" "k \<noteq> ''__proto__''" "map_of ps k = Some (JRef b)"
      and b: "b < length h"
    from pre have "length h \<le> length h'" by (rule take_prefix_length)
    with b have "b < length h'" by simp
    then have "deref (h'[b := c]) b = Some c" by (rule deref_update_same)
    moreover from 1 k have "map_of this k = Some (JRef b)" by blast
    then have "User_member (h'[b := c]) (p, this) k = Some (JRef b)" by (rule User_member_own)
    ultimately show "User_member (h'[b := c]) (p, this) k = Some (JRef b)
        \<and> deref (h'[b := c]) b = Some c" by simp
  qed
  have gr: "get_roles this = JRef (length h)" "get_username this = JStr u"
    unfolding th by (simp_all add: final_this_reads)
  have 4: "\<exists>r r'. own_prop ps ''roles'' = JRef r \<and> get_roles this = JRef r' \<and> r < length h
             \<and> length h \<le> r'"
    using r gr(1) by blast
  have 5: "get_username this = own_prop ps ''username''" using gr(2) u by simp
  from 1 2 pre 4 5 3 show ?thesis by (intro conjI)
qed

text \<open>
  As long as the prototype is that of the class, the reserved names read the validated
  username, the new array of roles and the method; and the prototype is that of the
  class when the object passed in has no field named \<open>__proto__\<close>.
\<close>

lemma User_member_class:
  assumes "map_of this ''username'' = None" "map_of this ''roles'' = None"
          "map_of this ''hasRole'' = None"
  shows "User_member h (User_prototype, this) ''username'' = Some (get_username this)"
    and "User_member h (User_prototype, this) ''roles'' = Some (get_roles this)"
    and "User_member h (User_prototype, this) ''hasRole'' = Some hasRole_method"
  using assms by (simp_all add: User_member_def)

lemma reserved_members_intact:
  assumes "User_new h user roles props = Inr (h', User_prototype, this)"
  shows "\<exists>u r. u \<noteq> [] \<and> length h \<le> r
           \<and> User_member hx (User_prototype, this) ''_username'' = Some (JStr u)
           \<and> User_member hx (User_prototype, this) ''username'' = Some (JStr u)
           \<and> User_member hx (User_prototype, this) ''_roles'' = Some (JRef r)
           \<and> User_member hx (User_prototype, this) ''roles'' = Some (JRef r)
           \<and> User_member hx (User_prototype, this) ''hasRole'' = Some hasRole_method"
proof -
  from constructor_success[OF User_new_Inr[OF assms]] obtain u r A where
    th: "this = AList.update ''_roles'' (JRef r) (AList.update ''_username'' (JStr u) A)"
    and u: "u \<noteq> []" and A: "\<forall>k \<in> set RESERVED_KEYWORDS. map_of A k = None"
    and r: "length h \<le> r"
    by blast
  from A have n: "map_of this ''username'' = None" "map_of this ''roles'' = None"
      "map_of this ''hasRole'' = None"
    and o: "map_of this ''_username'' = Some (JStr u)" "map_of this ''_roles'' = Some (JRef r)"
    unfolding th by (simp_all add: update_conv RESERVED_KEYWORDS_def)
  have g: "get_username this = JStr u" "get_roles this = JRef r"
    unfolding th by (simp_all add: final_this_reads)
  from User_member_class[OF n, of hx] User_member_own[OF o(1), of hx User_prototype]
    User_member_own[OF o(2), of hx User_prototype] u r g
  show ?thesis by auto
qed

lemma prototype_kept_without_proto_field:
  assumes "deref h a = Some (HObj ps)" and "map_of ps ''__proto__'' = None"
      and "User_new h (JRef a) x y = Inr (h', p, this)"
  shows "p = User_prototype"
proof -
  from assms(2) have "''__proto__'' \<notin> set (map fst ps)" by (simp add: map_of_eq_None_iff)
  from adopt_no_proto[OF this, of h "JRef a" "(User_prototype, [])"]
    User_new_object_form(1)[OF assms(1,3)]
  show ?thesis by simp
qed

section \<open>The claims\<close>






text \<open>
  C3 does not hold of the code. The loop of lines 44 to 48 keeps the five reserved
  names away from the new object, but it assigns a field named \<open>__proto__\<close> like any
  other field, and that assignment replaces the prototype of the new object by the
  caller's value. The record below sets every reserved name to the sentinel
  \<open>should not assign\<close>, as the tests of the repository do, then \<open>username\<close> and \<open>roles\<close>
  to valid values, and carries a field \<open>__proto__\<close> whose value is an object with the
  sentinel as \<open>username\<close>, \<open>roles\<close> and \<open>hasRole\<close> (\<open>JSON.parse\<close> makes such a record). The
  constructor succeeds, the prototype of the result is that object, and the result
  reads the sentinel for \<open>hasRole\<close>, \<open>username\<close> and \<open>roles\<close>.
\<close>

theorem C3_prototype_replaced:
  "User_new [HArr [JStr ''admin'', JStr ''user''],
             HObj [(''_username'', JStr ''should not assign''), (''username'', JStr ''u''),
                   (''roles'', JRef 0), (''_roles'', JStr ''should not assign''),
                   (''hasRole'', JStr ''should not assign''), (''__proto__'', JRef 2)],
             HObj [(''username'', JStr ''should not assign''),
                   (''roles'', JStr ''should not assign''),
                   (''hasRole'', JStr ''should not assign'')]]
        (JRef 1) JUndefined JUndefined
     = Inr ([HArr [JStr ''admin'', JStr ''user''],
             HObj [(''_username'', JStr ''should not assign''), (''username'', JStr ''u''),
                   (''roles'', JRef 0), (''_roles'', JStr ''should not assign''),
                   (''hasRole'', JStr ''should not assign''), (''__proto__'', JRef 2)],
             HObj [(''username'', JStr ''should not assign''),
                   (''roles'', JStr ''should not assign''),
                   (''hasRole'', JStr ''should not assign'')],
             HArr [JStr ''admin'', JStr ''user'']],
            Replaced (JRef 2), [(''_username'', JStr ''u''), (''_roles'', JRef 3)])
   \<and> User_member [HArr [JStr ''admin'', JStr ''user''],
             HObj [(''_username'', JStr ''should not assign''), (''username'', JStr ''u''),
                   (''roles'', JRef 0), (''_roles'', JStr ''should not assign''),
                   (''hasRole'', JStr ''should not assign''), (''__proto__'', JRef 2)],
             HObj [(''username'', JStr ''should not assign''),
                   (''roles'', JStr ''should not assign''),
                   (''hasRole'', JStr ''should not assign'')],
             HArr [JStr ''admin'', JStr ''user'']]
        (Replaced (JRef 2), [(''_username'', JStr ''u''), (''_roles'', JRef 3)]) ''hasRole''
       = Some (JStr ''should not assign'')
   \<and> User_member [HArr [JStr ''admin'', JStr ''user''],
             HObj [(''_username'', JStr ''should not assign''), (''username'', JStr ''u''),
                   (''roles'', JRef 0), (''_roles'', JStr ''should not assign''),
                   (''hasRole'', JStr ''should not assign''), (''__proto__'', JRef 2)],
             HObj [(''username'', JStr ''should not assign''),
                   (''roles'', JStr ''should not assign''),
                   (''hasRole'', JStr ''should not assign'')],
             HArr [JStr ''admin'', JStr ''user'']]
        (Replaced (JRef 2), [(''_username'', JStr ''u''), (''_roles'', JRef 3)]) ''username''
       = Some (JStr ''should not assign'')
   \<and> User_member [HArr [JStr ''admin'', JStr ''user''],
             HObj [(''_username'', JStr ''should not assign''), (''username'', JStr ''u''),
                   (''roles'', JRef 0), (''_roles'', JStr ''should not assign''),
                   (''hasRole'', JStr ''should not assign''), (''__proto__'', JRef 2)],
             HObj [(''username'', JStr ''should not assign''),
                   (''roles'', JStr ''should not assign''),
                   (''hasRole'', JStr ''should not assign'')],
             HArr [JStr ''admin'', JStr ''user'']]
        (Replaced (JRef 2), [(''_username'', JStr ''u''), (''_roles'', JRef 3)]) ''roles''
       = Some (JStr ''should not assign'')"
  by code_simp

text \<open>C3 at that record: what reading \<open>hasRole\<close> on the result gives.\<close>

theorem C3_witness:
  "User_member [HArr [JStr ''admin'', JStr ''user''],
             HObj [(''_username'', JStr ''should not assign''), (''username'', JStr ''u''),
                   (''roles'', JRef 0), (''_roles'', JStr ''should not assign''),
                   (''hasRole'', JStr ''should not assign''), (''__proto__'', JRef 2)],
             HObj [(''username'', JStr ''should not assign''),
                   (''roles'', JStr ''should not assign''),
                   (''hasRole'', JStr ''should not assign'')],
             HArr [JStr ''admin'', JStr ''user'']]
        (Replaced (JRef 2), [(''_username'', JStr ''u''), (''_roles'', JRef 3)]) ''hasRole''
       = Some (JStr ''should not assign'')"
  by (rule C3_prototype_replaced[THEN conjunct2, THEN conjunct1])

text \<open>
  C4. A first argument that is neither a string nor a non-array object (a number, a
  boolean, \<open>null\<close>, \<open>undefined\<close>, a function or an array) makes the constructor throw the
  error whose message names argument 1 and says that it must be a string or object,
  whatever the other two arguments are.
\<close>

theorem C4_invalid_user_data:
  assumes "\<not> is_string user" and "\<not> is_object h user" and "valid_val h user"
  shows "User_constructor h user roles props
           = Inl (Error ''Invalid user data specified (arg #1). Must be a string or object.'')"
proof -
  from assms(1) have "typeof user \<noteq> ''string''" by (cases user) simp_all
  moreover note not_object_cases[OF assms(2,3)]
  ultimately have "working_record h user roles props = Inl InvalidUserData"
    by (simp add: working_record_def)
  then show ?thesis by (simp add: User_constructor_unfold InvalidUserData_def)
qed

text \<open>C4 at the number 42 and at an array.\<close>

theorem C4_witness:
  "\<not> is_string (JNum 42) \<and> \<not> is_object [HArr []] (JNum 42) \<and> valid_val [HArr []] (JNum 42)
   \<and> User_constructor [HArr []] (JNum 42) JUndefined JUndefined
       = Inl (Error ''Invalid user data specified (arg #1). Must be a string or object.'')
   \<and> \<not> is_string (JRef 0) \<and> \<not> is_object [HArr []] (JRef 0) \<and> valid_val [HArr []] (JRef 0)
   \<and> User_constructor [HArr []] (JRef 0) JUndefined JUndefined
       = Inl (Error ''Invalid user data specified (arg #1). Must be a string or object.'')"
  using C4_invalid_user_data[of "JNum 42" "[HArr []]" JUndefined JUndefined]
        C4_invalid_user_data[of "JRef 0" "[HArr []]" JUndefined JUndefined]
  by (simp add: deref_def)

text \<open>
  C5. In the object form the constructor throws the error with the message \<open>User data does
  not define a valid username (user.username)\<close> exactly when the \<open>username\<close> field of the object is not a string
  of positive length: when it is absent, when it is not a string and when it is the
  empty string. A non-empty string passes this check.
\<close>

theorem C5_invalid_username:
  assumes "deref h a = Some (HObj ps)"
  shows "((User_constructor h (JRef a) roles props = Inl InvalidUsername)
            \<longleftrightarrow> \<not> (\<exists>s. own_prop ps ''username'' = JStr s \<and> s \<noteq> []))
         \<and> (map_of ps ''username'' = None
              \<longrightarrow> User_constructor h (JRef a) roles props = Inl InvalidUsername)
         \<and> InvalidUsername = Error ''User data does not define a valid username (user.username)''"
proof -
  have wr: "working_record h (JRef a) roles props = Inr (h, JRef a)"
    using assms by (simp add: working_record_def)
  have gp: "get_prop h (JRef a) ''username'' = own_prop ps ''username''"
    using assms by simp
  have iff: "(User_constructor h (JRef a) roles props = Inl InvalidUsername)
           \<longleftrightarrow> \<not> (\<exists>s. own_prop ps ''username'' = JStr s \<and> s \<noteq> [])"
  proof (cases "\<exists>s. own_prop ps ''username'' = JStr s \<and> s \<noteq> []")
    case True
    then have ok: "\<not> (typeof (own_prop ps ''username'') \<noteq> ''string''
                      \<or> str_length (own_prop ps ''username'') \<le> 0)"
      by (simp only: valid_username_iff) simp
    have "User_constructor h (JRef a) roles props \<noteq> Inl InvalidUsername"
      unfolding User_constructor_unfold using wr gp ok
      by (auto simp: Let_def InvalidUsername_def InvalidRolesField_def
          simp del: get_prop.simps split: option.splits)
    with True show ?thesis by simp
  next
    case False
    then have "typeof (own_prop ps ''username'') \<noteq> ''string''
                 \<or> str_length (own_prop ps ''username'') \<le> 0"
      by (simp only: valid_username_iff) simp
    then have "User_constructor h (JRef a) roles props = Inl InvalidUsername"
      unfolding User_constructor_unfold using wr gp by (auto simp del: get_prop.simps)
    with False show ?thesis by simp
  qed
  moreover have "map_of ps ''username'' = None
      \<longrightarrow> User_constructor h (JRef a) roles props = Inl InvalidUsername"
    using iff by (simp add: own_prop_def)
  moreover have "InvalidUsername = Error ''User data does not define a valid username (user.username)''"
    by (simp add: InvalidUsername_def)
  ultimately show ?thesis by blast
qed

text \<open>
  C5 at four objects: without a \<open>username\<close>, with a number, with the empty string (all
  rejected) and with the string \<open>u\<close> (not rejected for its username).
\<close>

theorem C5_witness:
  "deref [HObj []] 0 = Some (HObj [])
   \<and> User_constructor [HObj []] (JRef 0) JUndefined JUndefined = Inl InvalidUsername
   \<and> deref [HObj [(''username'', JNum 7)]] 0 = Some (HObj [(''username'', JNum 7)])
   \<and> User_constructor [HObj [(''username'', JNum 7)]] (JRef 0) JUndefined JUndefined
       = Inl InvalidUsername
   \<and> deref [HObj [(''username'', JStr '''')]] 0 = Some (HObj [(''username'', JStr '''')])
   \<and> User_constructor [HObj [(''username'', JStr '''')]] (JRef 0) JUndefined JUndefined
       = Inl InvalidUsername
   \<and> deref [HObj [(''username'', JStr ''u'')]] 0 = Some (HObj [(''username'', JStr ''u'')])
   \<and> User_constructor [HObj [(''username'', JStr ''u'')]] (JRef 0) JUndefined JUndefined
       \<noteq> Inl InvalidUsername"
  using C5_invalid_username[of "[HObj []]" 0 "[]" JUndefined JUndefined]
        C5_invalid_username[of "[HObj [(''username'', JNum 7)]]" 0 "[(''username'', JNum 7)]"
          JUndefined JUndefined]
        C5_invalid_username[of "[HObj [(''username'', JStr '''')]]" 0 "[(''username'', JStr '''')]"
          JUndefined JUndefined]
        C5_invalid_username[of "[HObj [(''username'', JStr ''u'')]]" 0 "[(''username'', JStr ''u'')]"
          JUndefined JUndefined]
  by (simp add: deref_def own_prop_def)



text \<open>
  C7. In the positional form a third argument that is not a non-array object
  (\<open>undefined\<close>, \<open>null\<close>, an array, a number, a string, a function) raises no error: with
  a non-empty username and an array of roles the constructor returns a \<open>User\<close> whose
  only own properties are \<open>_username\<close> and \<open>_roles\<close>, the latter an array as long as the
  roles given, and the call behaves as the call without a third argument.
\<close>

theorem C7_malformed_props:
  assumes "u \<noteq> []" and "instanceof_Array h roles"
      and "\<not> is_object h props" and "valid_val h props"
  shows "(\<exists>h' r' vs. User_constructor h (JStr u) roles props
              = Inr (h', [(''_username'', JStr u), (''_roles'', JRef r')])
           \<and> deref h' r' = Some (HArr vs) \<and> length vs = length (array_elems h roles))
         \<and> User_constructor h (JStr u) roles props = User_constructor h (JStr u) roles JUndefined"
proof -
  from assms(2) obtain r xs where r: "roles = JRef r" "deref h r = Some (HArr xs)"
    by (auto simp: instanceof_Array_iff)
  have same: "working_record h (JStr u) roles props = working_record h (JStr u) roles JUndefined"
    using not_object_cases[OF assms(3,4)] by (simp add: working_record_def)
  have bad: "\<not> truthy props \<or> instanceof_Array h props \<or> typeof props \<noteq> ''object''"
    by (rule not_object_cases[OF assms(3,4)])
  from working_record_positional[OF assms(2,4), of u] obtain h3 c ps where
    wr: "working_record h (JStr u) roles props = Inr (h3, JRef c)"
    and d0: "deref h3 c = Some (HObj ps)"
    and pre: "take (length h) h3 = h"
    and imp: "\<not> truthy props \<or> instanceof_Array h props \<or> typeof props \<noteq> ''object''
                \<longrightarrow> ps = [(''username'', JStr u), (''roles'', roles)]"
    by (elim exE conjE)
  from imp bad have "ps = [(''username'', JStr u), (''roles'', roles)]" by (rule mp)
  with d0 have d: "deref h3 c = Some (HObj [(''username'', JStr u), (''roles'', roles)])"
    by simp
  from r(2) have "r < length h" by (simp add: deref_def split: if_splits)
  from deref_prefix[OF pre this] r(2) have d3: "deref h3 r = Some (HArr xs)" by simp
  from constructor_tail[OF wr d _ assms(1) _ d3] r(1) obtain h4 vs where
    res: "User_constructor h (JStr u) roles props =
             Inr (h4, AList.update ''_roles'' (JRef (length h3))
                        (AList.update ''_username'' (JStr u)
                          (snd (adopt h3 (JRef c)
                                 (map fst [(''username'', JStr u), (''roles'', roles)])
                                 (User_prototype, [])))))"
    and dv: "deref h4 (length h3) = Some (HArr vs)" "length vs = length xs"
    by (auto simp: own_prop_def)
  have "adopt h3 (JRef c) (map fst [(''username'', JStr u), (''roles'', roles)])
          (User_prototype, []) = (User_prototype, [])"
    by (rule adopt_reserved_only) (simp add: RESERVED_KEYWORDS_def)
  with res have res': "User_constructor h (JStr u) roles props
      = Inr (h4, [(''_username'', JStr u), (''_roles'', JRef (length h3))])"
    by simp
  have eq: "User_constructor h (JStr u) roles props = User_constructor h (JStr u) roles JUndefined"
    using same by (simp add: User_constructor_unfold)
  have len: "length vs = length (array_elems h roles)"
    using dv(2) r by (simp add: array_elems_def)
  from res' dv(1) len eq show ?thesis by blast
qed

text \<open>C7 at the third arguments \<open>null\<close> and an array.\<close>

theorem C7_witness:
  "''u'' \<noteq> [] \<and> instanceof_Array [HArr [JStr ''admin'']] (JRef 0)
   \<and> \<not> is_object [HArr [JStr ''admin'']] JNull \<and> valid_val [HArr [JStr ''admin'']] JNull
   \<and> \<not> is_object [HArr [JStr ''admin'']] (JRef 0) \<and> valid_val [HArr [JStr ''admin'']] (JRef 0)
   \<and> (\<exists>h' r' vs. User_constructor [HArr [JStr ''admin'']] (JStr ''u'') (JRef 0) JNull
              = Inr (h', [(''_username'', JStr ''u''), (''_roles'', JRef r')])
           \<and> deref h' r' = Some (HArr vs) \<and> length vs = 1)
   \<and> User_constructor [HArr [JStr ''admin'']] (JStr ''u'') (JRef 0) (JRef 0)
       = User_constructor [HArr [JStr ''admin'']] (JStr ''u'') (JRef 0) JUndefined"
proof -
  have u: "''u'' \<noteq> []" by simp
  have a: "instanceof_Array [HArr [JStr ''admin'']] (JRef 0)" by (simp add: deref_def)
  have n: "\<not> is_object [HArr [JStr ''admin'']] JNull" "valid_val [HArr [JStr ''admin'']] JNull"
    by simp_all
  have r: "\<not> is_object [HArr [JStr ''admin'']] (JRef 0)" "valid_val [HArr [JStr ''admin'']] (JRef 0)"
    by (simp_all add: deref_def)
  have e: "length (array_elems [HArr [JStr ''admin'']] (JRef 0)) = 1"
    by (simp add: array_elems_def deref_def)
  have c1: "\<exists>h' r' vs. User_constructor [HArr [JStr ''admin'']] (JStr ''u'') (JRef 0) JNull
              = Inr (h', [(''_username'', JStr ''u''), (''_roles'', JRef r')])
           \<and> deref h' r' = Some (HArr vs) \<and> length vs = 1"
    using C7_malformed_props[OF u a n] unfolding e by (rule conjunct1)
  have c2: "User_constructor [HArr [JStr ''admin'']] (JStr ''u'') (JRef 0) (JRef 0)
       = User_constructor [HArr [JStr ''admin'']] (JStr ''u'') (JRef 0) JUndefined"
    using C7_malformed_props[OF u a r] by (rule conjunct2)
  from u a n r c1 c2 show ?thesis by (intro conjI)
qed

text \<open>
  C8. For a non-empty string \<open>u\<close> and an array \<open>rs\<close> of strings, the constructor succeeds
  on the object \<open>{username: u, roles: rs}\<close> and on the arguments \<open>(u, rs, props)\<close> for
  every third argument of the store; the accessor \<open>username\<close> then returns \<open>u\<close> and the accessor
  \<open>roles\<close> returns an array with the elements of \<open>rs\<close>, in their order and with their
  duplicates.
\<close>

theorem C8_round_trip:
  assumes "u \<noteq> []" and "deref h r = Some (HArr (map JStr rs))"
  shows "(deref h a = Some (HObj [(''username'', JStr u), (''roles'', JRef r)]) \<longrightarrow>
            (\<exists>h' this r'. User_constructor h (JRef a) x y = Inr (h', this)
               \<and> get_username this = JStr u
               \<and> get_roles this = JRef r' \<and> deref h' r' = Some (HArr (map JStr rs))))
       \<and> (valid_val h props \<longrightarrow>
            (\<exists>h' this r'. User_constructor h (JStr u) (JRef r) props = Inr (h', this)
               \<and> get_username this = JStr u
               \<and> get_roles this = JRef r' \<and> deref h' r' = Some (HArr (map JStr rs))))"
proof (intro conjI impI)
  have prim: "\<forall>v \<in> set (map JStr rs). \<not> is_ref v" by auto
  {
    assume d: "deref h a = Some (HObj [(''username'', JStr u), (''roles'', JRef r)])"
    from constructor_object_form[OF d _ assms(1) _ assms(2), of x y] prim
    obtain h' vs where
      "User_constructor h (JRef a) x y =
         Inr (h', AList.update ''_roles'' (JRef (length h))
                    (AList.update ''_username'' (JStr u)
                      (snd (adopt h (JRef a)
                             (map fst [(''username'', JStr u), (''roles'', JRef r)])
                             (User_prototype, [])))))"
      "deref h' (length h) = Some (HArr vs)" "vs = map JStr rs"
      by (auto simp: own_prop_def)
    then show "\<exists>h' this r'. User_constructor h (JRef a) x y = Inr (h', this)
               \<and> get_username this = JStr u
               \<and> get_roles this = JRef r' \<and> deref h' r' = Some (HArr (map JStr rs))"
      by (auto simp: final_this_reads)
  }
  {
    assume v: "valid_val h props"
    from constructor_positional_form[OF assms v] prim
    obtain h' r' A vs where
      "User_constructor h (JStr u) (JRef r) props =
         Inr (h', AList.update ''_roles'' (JRef r') (AList.update ''_username'' (JStr u) A))"
      "deref h' r' = Some (HArr vs)" "vs = map JStr rs"
      by auto
    then show "\<exists>h' this r'. User_constructor h (JStr u) (JRef r) props = Inr (h', this)
               \<and> get_username this = JStr u
               \<and> get_roles this = JRef r' \<and> deref h' r' = Some (HArr (map JStr rs))"
      by (auto simp: final_this_reads)
  }
qed

text \<open>C8 at the username \<open>foobar\<close> and the roles \<open>admin\<close>, \<open>user\<close>, \<open>admin\<close>, in both forms.\<close>

theorem C8_witness:
  "''foobar'' \<noteq> []
   \<and> deref [HArr [JStr ''admin'', JStr ''user'', JStr ''admin''],
              HObj [(''username'', JStr ''foobar''), (''roles'', JRef 0)]] 0
        = Some (HArr (map JStr [''admin'', ''user'', ''admin'']))
   \<and> deref [HArr [JStr ''admin'', JStr ''user'', JStr ''admin''],
              HObj [(''username'', JStr ''foobar''), (''roles'', JRef 0)]] 1
        = Some (HObj [(''username'', JStr ''foobar''), (''roles'', JRef 0)])
   \<and> (\<exists>h' this r'.
          User_constructor [HArr [JStr ''admin'', JStr ''user'', JStr ''admin''],
              HObj [(''username'', JStr ''foobar''), (''roles'', JRef 0)]] (JRef 1) JUndefined JUndefined
            = Inr (h', this)
          \<and> get_username this = JStr ''foobar''
          \<and> get_roles this = JRef r'
          \<and> deref h' r' = Some (HArr (map JStr [''admin'', ''user'', ''admin''])))
   \<and> valid_val [HArr [JStr ''admin'', JStr ''user'', JStr ''admin''],
              HObj [(''username'', JStr ''foobar''), (''roles'', JRef 0)]] JUndefined
   \<and> (\<exists>h' this r'.
          User_constructor [HArr [JStr ''admin'', JStr ''user'', JStr ''admin''],
              HObj [(''username'', JStr ''foobar''), (''roles'', JRef 0)]] (JStr ''foobar'') (JRef 0) JUndefined
            = Inr (h', this)
          \<and> get_username this = JStr ''foobar''
          \<and> get_roles this = JRef r'
          \<and> deref h' r' = Some (HArr (map JStr [''admin'', ''user'', ''admin''])))"
proof -
  let ?H = "[HArr [JStr ''admin'', JStr ''user'', JStr ''admin''],
             HObj [(''username'', JStr ''foobar''), (''roles'', JRef 0)]]"
  have u: "''foobar'' \<noteq> []" by simp
  have r: "deref ?H 0 = Some (HArr (map JStr [''admin'', ''user'', ''admin'']))"
    by (simp add: deref_def)
  have a: "deref ?H 1 = Some (HObj [(''username'', JStr ''foobar''), (''roles'', JRef 0)])"
    by (simp add: deref_def)
  have v: "valid_val ?H JUndefined" by simp
  note c = C8_round_trip[OF u r, of 1 JUndefined JUndefined JUndefined]
  from c a have c1: "\<exists>h' this r'. User_constructor ?H (JRef 1) JUndefined JUndefined = Inr (h', this)
          \<and> get_username this = JStr ''foobar'' \<and> get_roles this = JRef r'
          \<and> deref h' r' = Some (HArr (map JStr [''admin'', ''user'', ''admin'']))"
    by (elim conjE) (erule mp)
  from c v have c2: "\<exists>h' this r'. User_constructor ?H (JStr ''foobar'') (JRef 0) JUndefined = Inr (h', this)
          \<and> get_username this = JStr ''foobar'' \<and> get_roles this = JRef r'
          \<and> deref h' r' = Some (HArr (map JStr [''admin'', ''user'', ''admin'']))"
    by (elim conjE) (erule mp)
  from u r a v c1 c2 show ?thesis by (intro conjI)
qed

text \<open>
  C9. In the positional form the roles are checked before the username: when the
  first argument is a string, the empty string included, and the second is not an
  array, the constructor throws \<open>Invalid roles specified (arg #2)\<close>, which is neither
  of the errors about the user data and the username; the empty string with an array
  of roles is then refused for its username, whatever the third argument.
\<close>

theorem C9_roles_checked_first:
  "(\<not> instanceof_Array h roles \<longrightarrow>
       User_constructor h (JStr u) roles props = Inl InvalidRoles)
   \<and> (instanceof_Array h roles \<longrightarrow>
       User_constructor h (JStr '''') roles props = Inl InvalidUsername)
   \<and> InvalidRoles = Error ''Invalid roles specified (arg #2)''
   \<and> InvalidRoles \<noteq> InvalidUserData \<and> InvalidRoles \<noteq> InvalidUsername"
proof -
  have 1: "\<not> instanceof_Array h roles \<longrightarrow>
       User_constructor h (JStr u) roles props = Inl InvalidRoles"
    by (simp add: User_constructor_unfold working_record_def)
  have 2: "User_constructor h (JStr '''') roles props = Inl InvalidUsername"
    if arr: "instanceof_Array h roles"
  proof (cases "valid_val h props")
    case True
    from working_record_positional[OF arr True, of "''''"] obtain h3 c ps where
      wr: "working_record h (JStr '''') roles props = Inr (h3, JRef c)"
      and d: "deref h3 c = Some (HObj ps)" and un: "own_prop ps ''username'' = JStr ''''"
      by blast
    from d un have "\<not> (\<exists>s. get_prop h3 (JRef c) ''username'' = JStr s \<and> s \<noteq> [])" by simp
    from username_check_fails[OF wr this] show ?thesis .
  next
    case False
    then obtain p where p: "props = JRef p" "\<not> p < length h" by (cases props) auto
    then have dn: "deref h p = None" by (simp add: deref_def)
    then have cl: "clone h (JRef p) = Some (h, JRef p)" by (simp add: clone_def)
    have wr: "working_record h (JStr '''') roles props = Inr (h, JRef p)"
      using arr p(1) dn cl by (simp add: working_record_def)
    have "\<not> (\<exists>s. get_prop h (JRef p) ''username'' = JStr s \<and> s \<noteq> [])" using dn by simp
    from username_check_fails[OF wr this] show ?thesis .
  qed
  show ?thesis using 1 2
    by (simp add: InvalidRoles_def InvalidUserData_def InvalidUsername_def)
qed

text \<open>C9 at the empty string with a number and with an array as roles.\<close>

theorem C9_witness:
  "\<not> instanceof_Array [HArr []] (JNum 3)
   \<and> User_constructor [HArr []] (JStr '''') (JNum 3) JUndefined = Inl InvalidRoles
   \<and> User_constructor [HArr []] (JStr ''u'') JUndefined JUndefined = Inl InvalidRoles
   \<and> instanceof_Array [HArr []] (JRef 0)
   \<and> User_constructor [HArr []] (JStr '''') (JRef 0) JUndefined = Inl InvalidUsername"
  using C9_roles_checked_first[of "[HArr []]" "JNum 3" "''''" JUndefined]
        C9_roles_checked_first[of "[HArr []]" JUndefined "''u''" JUndefined]
        C9_roles_checked_first[of "[HArr []]" "JRef 0" "''''" JUndefined]
  by (simp add: deref_def)

text \<open>
  C10 does not hold of the code, by the same assignment of line 46. A field named
  \<open>__proto__\<close> is not reserved, but it is not adopted: at the record with the field
  \<open>__proto__: 5\<close> (\<open>JSON.parse\<close> makes such a record) the constructor succeeds, the new
  object has no own property of that name, and reading \<open>__proto__\<close> on it does not give
  5. Every other field that is not reserved is adopted by reference
  (\<open>fields_by_reference\<close> above).
\<close>

theorem C10_proto_field_not_adopted:
  "deref [HArr [JStr ''admin''],
          HObj [(''username'', JStr ''u''), (''roles'', JRef 0), (''__proto__'', JNum 5)]] 1
     = Some (HObj [(''username'', JStr ''u''), (''roles'', JRef 0), (''__proto__'', JNum 5)])
   \<and> ''__proto__'' \<notin> set RESERVED_KEYWORDS
   \<and> map_of [(''username'', JStr ''u''), (''roles'', JRef 0), (''__proto__'', JNum 5)] ''__proto__''
       = Some (JNum 5)
   \<and> User_new [HArr [JStr ''admin''],
          HObj [(''username'', JStr ''u''), (''roles'', JRef 0), (''__proto__'', JNum 5)]]
        (JRef 1) JUndefined JUndefined
     = Inr ([HArr [JStr ''admin''],
             HObj [(''username'', JStr ''u''), (''roles'', JRef 0), (''__proto__'', JNum 5)],
             HArr [JStr ''admin'']],
            User_prototype, [(''_username'', JStr ''u''), (''_roles'', JRef 2)])
   \<and> map_of [(''_username'', JStr ''u''), (''_roles'', JRef 2)] ''__proto__'' = None
   \<and> User_member [HArr [JStr ''admin''],
             HObj [(''username'', JStr ''u''), (''roles'', JRef 0), (''__proto__'', JNum 5)],
             HArr [JStr ''admin'']]
        (User_prototype, [(''_username'', JStr ''u''), (''_roles'', JRef 2)]) ''__proto__''
       \<noteq> Some (JNum 5)"
  by code_simp

text \<open>C10 at that record: the own properties of the result have no \<open>__proto__\<close>.\<close>

theorem C10_witness:
  "map_of [(''_username'', JStr ''u''), (''_roles'', JRef 2)] ''__proto__'' = None"
  by (rule C10_proto_field_not_adopted[THEN conjunct2, THEN conjunct2, THEN conjunct2,
        THEN conjunct2, THEN conjunct1])

end
